theory Spec2Isabelle
  imports Main
begin

section \<open>UIFlow: flow definitions, channels and the FlowRunner\<close>

text \<open>
  A shallow embedding of \<^verbatim>\<open>flow.tsx\<close>: \<^verbatim>\<open>createFlowChannel\<close>,
  \<^verbatim>\<open>defineFlow\<close> and the \<^verbatim>\<open>FlowRunner\<close> component. The repository holds three
  revisions of the file. The model follows the latest one, the only one in which an action
  step can declare a render policy; the earlier ones have the same channel, the same tests in
  \<^verbatim>\<open>defineFlow\<close> and \<^verbatim>\<open>applyTransition\<close> and (from the second on) the same channel
  binding and effects. The latest revision keeps the runner's data in two objects,
  \<^verbatim>\<open>domain\<close> and \<^verbatim>\<open>internal\<close>, which every callback receives side by side and every
  state update copies together: the type \<open>'d\<close> stands for the two. The factory
  \<^verbatim>\<open>createInternalData\<close>, which only fills the initial state, is left out.

  JavaScript values are modelled as follows.
  \<^item> A thrown value (or the reason of a rejected promise) is an \<open>exn\<close>; a call that may
    throw returns \<open>exn + 'a\<close>, with \<open>Inl\<close> for the throw.
  \<^item> A value of type \<^verbatim>\<open>string | void\<close> is a \<open>string option\<close>; it is truthy when it is a
    non-empty string.
  \<^item> The step table and the channel maps are ordinary objects, as an object literal makes
    them: an object has its own enumerable data properties and inherits the properties of
    \<^verbatim>\<open>Object.prototype\<close>. A read \<^verbatim>\<open>obj[k]\<close> gives the own property \<open>k\<close> when there is
    one, else the inherited one, else \<^verbatim>\<open>undefined\<close>; \<^verbatim>\<open>Object.keys\<close> and
    \<^verbatim>\<open>Object.entries\<close> list the own properties only. Step descriptors, channels and the
    inherited values are objects or functions, hence truthy and not nullish.
  \<^item> An object whose identity matters (a channel, a channel map) carries a natural number
    that stands for its reference; \<^verbatim>\<open>===\<close> on objects compares these numbers.
\<close>

subsection \<open>Data model\<close>

datatype exn = Error string

text \<open>
  The names of the properties of \<^verbatim>\<open>Object.prototype\<close> (ECMAScript, with its annex on
  web browsers). All are functions but \<^verbatim>\<open>__proto__\<close>, an accessor that reads and sets
  the prototype of the object it is used on.
\<close>

definition objectPrototypeNames :: "string list" where
  "objectPrototypeNames =
     [''constructor'', ''__defineGetter__'', ''__defineSetter__'', ''hasOwnProperty'',
      ''__lookupGetter__'', ''__lookupSetter__'', ''isPrototypeOf'', ''propertyIsEnumerable'',
      ''toString'', ''valueOf'', ''__proto__'', ''toLocaleString'']"

text \<open>
  The values a read of a channel map can give: a channel made by
  \<^verbatim>\<open>createFlowChannel\<close> (an object with the own properties \<^verbatim>\<open>get\<close>, \<^verbatim>\<open>emit\<close> and
  \<^verbatim>\<open>subscribe\<close>), one of these three functions of a channel, \<^verbatim>\<open>Object.prototype\<close>
  itself, and the function \<^verbatim>\<open>Object.prototype\<close> holds under a name.
\<close>

datatype jsval =
    Channel nat
  | ChannelMethod nat string
  | ObjectPrototype
  | ObjectPrototypeMember string

definition channelMethods :: "string list" where
  "channelMethods = [''get'', ''emit'', ''subscribe'']"

text \<open>
  \<^verbatim>\<open>EventChannels = Record<string, FlowChannel<any>>\<close>. A map object has an identity
  \<open>oid\<close>, a prototype and its own enumerable properties \<open>entries\<close>, in insertion order,
  with pairwise distinct keys (JavaScript lists the keys that are array indices first; the
  model keeps them in insertion order as well, and no property below depends on the order
  of the keys). The \<^verbatim>\<open>eventChannels\<close> prop is an object whose prototype is
  \<^verbatim>\<open>Object.prototype\<close> and whose own properties hold channels; the object the runner
  builds under the sticky strategy can come to hold inherited functions and to have a channel
  as its prototype.
\<close>

record EventChannels =
  oid :: nat
  prototype :: jsval
  entries :: "(string \<times> jsval) list"

text \<open>
  A step callback may mutate the data object it is given and may throw (or return a
  promise that rejects): it maps the data to the data after the call and the outcome.
\<close>

type_synonym ('d, 'a) callback_result = "'d \<times> (exn + 'a)"

text \<open>
  \<^verbatim>\<open>ActionRenderConfig\<close>: what an action step may declare under \<^verbatim>\<open>render\<close>, the mode
  \<^verbatim>\<open>preserve-previous\<close> or the mode \<^verbatim>\<open>fallback\<close> with its view.
\<close>

datatype ActionRenderConfig = PreservePrevious | Fallback nat

text \<open>
  \<^verbatim>\<open>FlowStep = UiStep | ActionStep\<close>. The runner does not look at a tag: it tests the
  presence of the properties \<^verbatim>\<open>action\<close> and \<^verbatim>\<open>view\<close>, so both are optional
  fields here, as is \<^verbatim>\<open>render\<close>. A view is an opaque React component, named by a number.
\<close>

record ('d, 'v) FlowStep =
  input :: "'d \<Rightarrow> EventChannels option \<Rightarrow> ('d, 'v) callback_result"
  view :: "nat option"
  action :: "('v \<Rightarrow> 'd \<Rightarrow> EventChannels option \<Rightarrow> ('d, 'v) callback_result) option"
  onOutput :: "'d \<Rightarrow> 'v \<Rightarrow> EventChannels option \<Rightarrow> ('d, string option) callback_result"
  render :: "ActionRenderConfig option"

record 'd ChannelTransitionContext =
  ctxData :: 'd
  ctxCurrentStep :: string
  ctxEvents :: "EventChannels option"
  channelKey :: string

type_synonym 'd ChannelTransitionResolver =
  "'d ChannelTransitionContext \<Rightarrow> ('d, string option) callback_result"

record 'd DefineFlowOptions =
  optStart :: string
  optChannelTransitions :: "(string \<rightharpoonup> 'd ChannelTransitionResolver) option"

record ('d, 'v) FlowDefinition =
  steps :: "string \<rightharpoonup> ('d, 'v) FlowStep"
  start :: string
  channelTransitions :: "(string \<rightharpoonup> 'd ChannelTransitionResolver) option"

subsection \<open>defineFlow\<close>

text \<open>
  A read \<^verbatim>\<open>steps[name]\<close> of the step table: the step stored under the own key, or the
  value inherited from \<^verbatim>\<open>Object.prototype\<close> under that name (a function, or
  \<^verbatim>\<open>Object.prototype\<close> itself for \<^verbatim>\<open>__proto__\<close>), or \<^verbatim>\<open>undefined\<close>. The first two
  are truthy.
\<close>

datatype ('d, 'v) stepProperty = Undefined | Step "('d, 'v) FlowStep" | Inherited string

definition readStep ::
  "(string \<rightharpoonup> ('d, 'v) FlowStep) \<Rightarrow> string \<Rightarrow> ('d, 'v) stepProperty"
where
  "readStep table name =
     (case table name of
        Some step \<Rightarrow> Step step
      | None \<Rightarrow> if name \<in> set objectPrototypeNames then Inherited name else Undefined)"

text \<open>
  \<^verbatim>\<open>if (!options.start || !steps[options.start]) throw new Error(...)\<close>; otherwise the
  definition is built from the arguments. A string is falsy exactly when it is empty.
\<close>

definition defineFlow_message :: "string \<Rightarrow> string" where
  "defineFlow_message s =
     ''defineFlow: '' @ [CHR 0x27] @ ''start'' @ [CHR 0x27] @
     '' must be provided and exist in steps. Got '' @ [CHR 0x27] @ s @ [CHR 0x27] @ ''.''"

definition defineFlow ::
  "(string \<rightharpoonup> ('d, 'v) FlowStep) \<Rightarrow> 'd DefineFlowOptions \<Rightarrow> exn + ('d, 'v) FlowDefinition"
where
  "defineFlow stepsArg options =
     (if optStart options = '''' \<or> readStep stepsArg (optStart options) = Undefined
      then Inl (Error (defineFlow_message (optStart options)))
      else Inr \<lparr>steps = stepsArg, start = optStart options,
                channelTransitions = optChannelTransitions options\<rparr>)"

subsection \<open>Channels\<close>

text \<open>
  \<^verbatim>\<open>Updater<T> = T | ((prev: T) => T)\<close>; \<^verbatim>\<open>emit\<close> tells the two apart with
  \<^verbatim>\<open>typeof update === "function"\<close>.
\<close>

datatype 'a Updater = Value 'a | Function "'a \<Rightarrow> 'a"

text \<open>
  A listener is a function \<^verbatim>\<open>() => void\<close>, named by a number (its identity in the
  \<^verbatim>\<open>Set\<close>). What a call of it does to the channel it listens to is a list of effects,
  run in order: it may subscribe or unsubscribe a listener of that channel, and it may throw,
  which ends the call.
\<close>

datatype effect = Subscribe nat | Unsubscribe nat | Throw exn

text \<open>
  The closure state of \<^verbatim>\<open>createFlowChannel\<close>: the variable \<^verbatim>\<open>value\<close> and the
  \<^verbatim>\<open>Set\<close> of listeners. The set is its list of entries in insertion order, as in
  ECMAScript: \<^verbatim>\<open>add\<close> appends a value that is not in the set, \<^verbatim>\<open>delete\<close> empties
  the entry of the value (\<open>None\<close>), and \<^verbatim>\<open>forEach\<close> walks the list by index while the
  index is below its current length, skipping emptied entries.
\<close>

record 'a FlowChannel =
  val :: 'a
  listeners :: "nat option list"


definition set_add :: "nat \<Rightarrow> nat option list \<Rightarrow> nat option list" where
  "set_add l ls = (if Some l \<in> set ls then ls else ls @ [Some l])"

definition set_delete :: "nat \<Rightarrow> nat option list \<Rightarrow> nat option list" where
  "set_delete l ls = map (\<lambda>e. if e = Some l then None else e) ls"

text \<open>The listeners of the set, in insertion order.\<close>

fun registered :: "nat option list \<Rightarrow> nat list" where
  "registered [] = []"
| "registered (None # ls) = registered ls"
| "registered (Some l # ls) = l # registered ls"

definition get :: "'a FlowChannel \<Rightarrow> 'a \<times> 'a FlowChannel" where
  "get ch = (val ch, ch)"


text \<open>
  One call \<^verbatim>\<open>l()\<close>: the effects of the listener's body on the set, up to the first
  throw. What was done before the throw stays done.
\<close>

fun runListener :: "effect list \<Rightarrow> nat option list \<Rightarrow> nat option list \<times> exn option" where
  "runListener [] ls = (ls, None)"
| "runListener (Subscribe l # body) ls = runListener body (set_add l ls)"
| "runListener (Unsubscribe l # body) ls = runListener body (set_delete l ls)"
| "runListener (Throw e # body) ls = (ls, Some e)"

text \<open>
  \<^verbatim>\<open>listeners.forEach((l) => l())\<close>, from index \<open>i\<close>, with the listeners called so far.
  The pass may go on forever (each listener called may add another one), so it runs on fuel:
  \<open>None\<close> is a pass that has not ended. A pass that ends gives the set, the listeners
  called in order, and the exception that ended it, if any: nothing catches a throw of
  \<^verbatim>\<open>l()\<close>, which leaves \<^verbatim>\<open>forEach\<close> and \<^verbatim>\<open>emit\<close> at once.
\<close>

fun forEach ::
  "nat \<Rightarrow> (nat \<Rightarrow> effect list) \<Rightarrow> nat \<Rightarrow> nat option list \<Rightarrow> nat list \<Rightarrow>
   (nat option list \<times> nat list \<times> exn option) option"
where
  "forEach 0 bodies i ls called = None"
| "forEach (Suc fuel) bodies i ls called =
     (if length ls \<le> i then Some (ls, called, None)
      else case ls ! i of
        None \<Rightarrow> forEach fuel bodies (Suc i) ls called
      | Some l \<Rightarrow>
          (case runListener (bodies l) ls of
             (ls', Some e) \<Rightarrow> Some (ls', called @ [l], Some e)
           | (ls', None) \<Rightarrow> forEach fuel bodies (Suc i) ls' (called @ [l])))"

text \<open>
  \<^verbatim>\<open>emit\<close>: assign \<^verbatim>\<open>value\<close>, then the notification pass. The result is the channel
  after the call, the listeners called, and the exception \<^verbatim>\<open>emit\<close> threw, if any.
\<close>

definition nextValue :: "'a Updater \<Rightarrow> 'a \<Rightarrow> 'a" where
  "nextValue update prev = (case update of Function f \<Rightarrow> f prev | Value v \<Rightarrow> v)"

definition emit ::
  "nat \<Rightarrow> (nat \<Rightarrow> effect list) \<Rightarrow> 'a Updater \<Rightarrow> 'a FlowChannel \<Rightarrow>
   ('a FlowChannel \<times> nat list \<times> exn option) option"
where
  "emit fuel bodies update ch =
     (let ch1 = ch\<lparr>val := nextValue update (val ch)\<rparr> in
      case forEach fuel bodies 0 (listeners ch1) [] of
        None \<Rightarrow> None
      | Some (ls, called, e) \<Rightarrow> Some (ch1\<lparr>listeners := ls\<rparr>, called, e))"

subsection \<open>Channel binding\<close>

text \<open>\<^verbatim>\<open>Object.keys\<close> lists the keys of the own properties.\<close>

definition keys :: "EventChannels \<Rightarrow> string list" where
  "keys m = map fst (entries m)"

text \<open>
  What an object inherits under the name \<open>k\<close> when its prototype is \<open>p\<close>. The accessor
  \<^verbatim>\<open>__proto__\<close> gives the prototype itself. A channel has its three functions and, being
  an object literal, the properties of \<^verbatim>\<open>Object.prototype\<close>. Only
  \<^verbatim>\<open>Object.prototype\<close> and channels become prototypes of a channel map when the own
  properties of the \<^verbatim>\<open>eventChannels\<close> props hold channels (see \<open>setProp\<close>); for any
  other prototype the model keeps the names of \<^verbatim>\<open>Object.prototype\<close>.
\<close>

definition inherited :: "jsval \<Rightarrow> string \<Rightarrow> jsval option" where
  "inherited p k =
     (if k = ''__proto__'' then Some p
      else case p of
        Channel c \<Rightarrow>
          if k \<in> set channelMethods then Some (ChannelMethod c k)
          else if k \<in> set objectPrototypeNames then Some (ObjectPrototypeMember k) else None
      | _ \<Rightarrow> if k \<in> set objectPrototypeNames then Some (ObjectPrototypeMember k) else None)"

text \<open>The read \<^verbatim>\<open>obj[k]\<close>, and \<^verbatim>\<open>m?.[key]\<close> on an optional channel map.\<close>

definition getProp :: "EventChannels \<Rightarrow> string \<Rightarrow> jsval option" where
  "getProp obj k =
     (case map_of (entries obj) k of Some v \<Rightarrow> Some v | None \<Rightarrow> inherited (prototype obj) k)"

definition binding :: "EventChannels option \<Rightarrow> string \<Rightarrow> jsval option" where
  "binding m k = (case m of None \<Rightarrow> None | Some obj \<Rightarrow> getProp obj k)"

text \<open>
  The assignment \<^verbatim>\<open>obj[k] = v\<close>. An own property is replaced where it exists and
  appended otherwise; but for the name \<^verbatim>\<open>__proto__\<close>, when the object has no own property
  of that name, the assignment runs the inherited accessor, which makes \<open>v\<close> the
  prototype of the object and adds no own property.
\<close>

fun assign :: "string \<Rightarrow> 'a \<Rightarrow> (string \<times> 'a) list \<Rightarrow> (string \<times> 'a) list" where
  "assign k v [] = [(k, v)]"
| "assign k v ((k', v') # es) = (if k = k' then (k, v) # es else (k', v') # assign k v es)"

definition setProp :: "string \<Rightarrow> jsval \<Rightarrow> EventChannels \<Rightarrow> EventChannels" where
  "setProp k v obj =
     (if k = ''__proto__'' \<and> map_of (entries obj) k = None then obj\<lparr>prototype := v\<rparr>
      else obj\<lparr>entries := assign k v (entries obj)\<rparr>)"

datatype strategy = sticky | replace

text \<open>
  The sticky candidate: a new object \<^verbatim>\<open>{}\<close> (its identity \<open>fresh\<close> is supplied by the
  caller), filled by the loop \<^verbatim>\<open>candidate[key] = prev?.[key] ?? channel\<close> over the own
  properties of the incoming object.
\<close>

definition stickyCandidate :: "nat \<Rightarrow> EventChannels option \<Rightarrow> EventChannels \<Rightarrow> EventChannels" where
  "stickyCandidate fresh prev incoming =
     fold (\<lambda>(key, channel) candidate.
             setProp key (case binding prev key of Some v \<Rightarrow> v | None \<Rightarrow> channel) candidate)
       (entries incoming)
       \<lparr>oid = fresh, prototype = ObjectPrototype, entries = []\<rparr>"

text \<open>
  \<^verbatim>\<open>prevKeys.length === candidateKeys.length && candidateKeys.every((k) => prev[k] === candidate[k])\<close>
\<close>

definition sameChannels :: "EventChannels \<Rightarrow> EventChannels \<Rightarrow> bool" where
  "sameChannels prev candidate =
     (length (keys prev) = length (keys candidate) \<and>
      list_all (\<lambda>k. getProp prev k = getProp candidate k) (keys candidate))"

text \<open>
  The \<^verbatim>\<open>candidate\<close> of \<^verbatim>\<open>getResolvedChannels\<close>: the sticky object, or the incoming
  object itself under \<^verbatim>\<open>replace\<close>.
\<close>

definition candidateFor ::
  "strategy \<Rightarrow> nat \<Rightarrow> EventChannels option \<Rightarrow> EventChannels \<Rightarrow> EventChannels"
where
  "candidateFor eventChannelsStrategy fresh prev incoming =
     (if eventChannelsStrategy = sticky then stickyCandidate fresh prev incoming else incoming)"

text \<open>
  \<^verbatim>\<open>getResolvedChannels\<close>, with \<^verbatim>\<open>resolvedChannelsRef.current\<close> passed in as \<open>prev\<close>
  and passed out as the first component; the second component is the value returned.
\<close>

definition getResolvedChannels ::
  "strategy \<Rightarrow> nat \<Rightarrow> EventChannels option \<Rightarrow> EventChannels option \<Rightarrow>
   EventChannels option \<times> EventChannels option"
where
  "getResolvedChannels eventChannelsStrategy fresh prev incoming =
     (case incoming of
        None \<Rightarrow> (None, None)
      | Some inc \<Rightarrow>
          (let candidate = candidateFor eventChannelsStrategy fresh prev inc
           in case prev of
                None \<Rightarrow> (Some candidate, Some candidate)
              | Some p \<Rightarrow>
                  if sameChannels p candidate then (Some p, Some p)
                  else (Some candidate, Some candidate)))"

text \<open>
  A sequence of renders of one runner: each render brings the identity for a new object and
  the \<^verbatim>\<open>eventChannels\<close> prop; the result lists what each render resolved.
\<close>

fun resolveAll ::
  "strategy \<Rightarrow> EventChannels option \<Rightarrow> (nat \<times> EventChannels option) list \<Rightarrow>
   EventChannels option list"
where
  "resolveAll st prev [] = []"
| "resolveAll st prev ((fresh, incoming) # renders) =
     (case getResolvedChannels st fresh prev incoming of
        (ref, resolved) \<Rightarrow> resolved # resolveAll st ref renders)"

text \<open>
  The subscription effect, \<^verbatim>\<open>useEffect(..., [flow.channelTransitions, resolvedEventChannels])\<close>.
  React runs the effect after the first render and after every render in which a dependency
  is not the same object as before (\<^verbatim>\<open>Object.is\<close>); before it runs the effect again it runs
  the cleanup of the last run, which calls every \<^verbatim>\<open>unsubscribe\<close> that run collected.
  \<open>deps\<close> holds the identities the last run saw (\<open>None\<close> before the first run),
  \<open>active\<close> the subscriptions whose \<^verbatim>\<open>unsubscribe\<close> the cleanup holds, by channel key
  and channel, and \<open>effectError\<close> what the last run threw.

  The run calls \<^verbatim>\<open>ch.subscribe\<close> for the own properties of the resolved map in order. A
  value that is not a channel has no \<^verbatim>\<open>subscribe\<close>: the call throws a
  \<^verbatim>\<open>TypeError\<close>, the effect returns no cleanup, and the subscriptions made before the
  throw stay for good.
\<close>

record Subscriptions =
  deps :: "(nat option \<times> nat option) option"
  active :: "(string \<times> nat) list"
  subscribeCalls :: nat
  unsubscribeCalls :: nat
  effectError :: "exn option"

fun subscribeAll ::
  "(string \<times> jsval) list \<Rightarrow> (string \<times> nat) list \<Rightarrow> (string \<times> nat) list \<times> exn option"
where
  "subscribeAll [] made = (made, None)"
| "subscribeAll ((k, Channel c) # es) made = subscribeAll es (made @ [(k, c)])"
| "subscribeAll ((k, v) # es) made = (made, Some (Error ''TypeError''))"

definition subscriptionEffect ::
  "nat option \<Rightarrow> EventChannels option \<Rightarrow> Subscriptions \<Rightarrow> Subscriptions"
where
  "subscriptionEffect channelTransitionsId resolvedEventChannels s =
     (let newDeps = (channelTransitionsId, map_option oid resolvedEventChannels) in
      if deps s = Some newDeps then s
      else
        let s1 = s\<lparr>deps := Some newDeps, active := [],
                   unsubscribeCalls := unsubscribeCalls s + length (active s),
                   effectError := None\<rparr>
        in case resolvedEventChannels of
             None \<Rightarrow> s1
           | Some m \<Rightarrow>
               (case subscribeAll (entries m) [] of
                  (made, None) \<Rightarrow>
                    s1\<lparr>active := made, subscribeCalls := subscribeCalls s1 + length made\<rparr>
                | (made, Some e) \<Rightarrow>
                    s1\<lparr>subscribeCalls := subscribeCalls s1 + length made,
                       effectError := Some e\<rparr>))"

subsection \<open>The FlowRunner\<close>

text \<open>
  The React state of one runner: \<^verbatim>\<open>state\<close>, \<^verbatim>\<open>busy\<close>, \<^verbatim>\<open>_tick\<close> and
  \<^verbatim>\<open>isMountedRef\<close>, with two observations: \<open>renderCount\<close> counts the state updates
  that make React render the component again, \<open>consoleErrors\<close> lists what was passed to
  \<^verbatim>\<open>console.error\<close>.

  The functions below are closures of a render. The action effect and the output handle
  are modelled as run to their end against the state of the render that made them, with no
  other state update of the runner in between: the \<^verbatim>\<open>data\<close> and \<^verbatim>\<open>currentStep\<close>
  they have captured are those of the state they are applied to. The channel listener is
  subscribed once and may run many renders later: what it has captured is a parameter (see
  \<open>runChannelTransition\<close>). \<open>events\<close> is the \<^verbatim>\<open>resolvedEventChannels\<close> of the render
  of the closure. An \<^verbatim>\<open>await\<close> of a promise that rejects is a throw.
\<close>

record 'd RunnerState =
  currentStep :: string
  data :: 'd

record 'd Runner =
  state :: "'d RunnerState"
  busy :: bool
  tick :: nat
  isMounted :: bool
  renderCount :: nat
  consoleErrors :: "exn list"

text \<open>
  \<^verbatim>\<open>setState\<close> with an updater that builds a new object always renders again; a setter
  given the value the state already has does nothing.
\<close>

definition setState :: "('d RunnerState \<Rightarrow> 'd RunnerState) \<Rightarrow> 'd Runner \<Rightarrow> 'd Runner" where
  "setState f r = r\<lparr>state := f (state r), renderCount := Suc (renderCount r)\<rparr>"






text \<open>
  \<^verbatim>\<open>applyTransition\<close>. The test \<^verbatim>\<open>nextStepName && flow.steps[nextStepName]\<close> reads
  the step table, inherited properties included. The spread \<^verbatim>\<open>{ ...prev.data }\<close> is a new
  object with the properties of the old one: the same data, a new state object.
\<close>

definition applyTransition ::
  "('d, 'v) FlowDefinition \<Rightarrow> string option \<Rightarrow> 'd Runner \<Rightarrow> 'd Runner"
where
  "applyTransition flow nextStepName r =
     (if \<not> isMounted r then r
      else case nextStepName of
        Some n \<Rightarrow>
          if n \<noteq> '''' \<and> readStep (steps flow) n \<noteq> Undefined
          then setState (\<lambda>prev. prev\<lparr>currentStep := n, data := data prev\<rparr>) r
          else setState (\<lambda>prev. prev\<lparr>data := data prev\<rparr>) r
      | None \<Rightarrow> setState (\<lambda>prev. prev\<lparr>data := data prev\<rparr>) r)"









text \<open>\<^verbatim>\<open>(step as any).action && !(step as any).view\<close>\<close>

definition isActionStep :: "('d, 'v) FlowStep \<Rightarrow> bool" where
  "isActionStep step = (action step \<noteq> None \<and> view step = None)"




text \<open>
  What the component returns from a render: nothing (\<^verbatim>\<open>null\<close>), a view component with
  its input and an output handle that is live (\<open>outputHandle_emit\<close>) or inert, or the
  fallback view of an action step with its props \<^verbatim>\<open>input\<close>, the data, \<^verbatim>\<open>events\<close>,
  \<^verbatim>\<open>step\<close> and \<^verbatim>\<open>busy\<close>.
\<close>

datatype ('d, 'v) rendered =
    Null
  | ViewComponent "nat option" 'v bool
  | FallbackView nat 'v 'd "EventChannels option" string bool

text \<open>
  The step that \<^verbatim>\<open>preserve-previous\<close> renders: \<^verbatim>\<open>previousUiStepRef.current\<close>, when
  it is a non-empty name under which the step table has a step with a view.
\<close>

definition previousUiStep ::
  "('d, 'v) FlowDefinition \<Rightarrow> string option \<Rightarrow> ('d, 'v) FlowStep option"
where
  "previousUiStep flow previousUiStepRef =
     (case previousUiStepRef of
        None \<Rightarrow> None
      | Some name \<Rightarrow>
          if name = '''' then None
          else case readStep (steps flow) name of
                 Step previousStep \<Rightarrow> if view previousStep \<noteq> None then Some previousStep else None
               | _ \<Rightarrow> None)"

text \<open>
  The render of the component, for the part that depends on the step: the value of
  \<^verbatim>\<open>previousUiStepRef.current\<close> after it, the data after the \<^verbatim>\<open>input\<close> callback it
  ran, and what it returns or throws. Reading \<^verbatim>\<open>(step as any).action\<close> of a step that is
  \<^verbatim>\<open>undefined\<close> throws a \<^verbatim>\<open>TypeError\<close>, so the branch \<^verbatim>\<open>if (!step)\<close> after it is
  never taken. A value the step table only inherits has no \<^verbatim>\<open>action\<close>, no \<^verbatim>\<open>view\<close>
  and no \<^verbatim>\<open>input\<close>: it is rendered as a UI step, and calling its \<^verbatim>\<open>input\<close> throws a
  \<^verbatim>\<open>TypeError\<close>. (The two earlier revisions, in which a step has no \<^verbatim>\<open>render\<close>,
  return \<^verbatim>\<open><div>{busy ? "Processing..." : null}</div>\<close> for an action step.)
\<close>

definition FlowRunner_render ::
  "('d, 'v) FlowDefinition \<Rightarrow> EventChannels option \<Rightarrow> string option \<Rightarrow> 'd Runner \<Rightarrow>
   string option \<times> 'd \<times> (exn + ('d, 'v) rendered)"
where
  "FlowRunner_render flow events previousUiStepRef r =
     (case readStep (steps flow) (currentStep (state r)) of
        Undefined \<Rightarrow> (previousUiStepRef, data (state r), Inl (Error ''TypeError''))
      | Inherited name \<Rightarrow> (previousUiStepRef, data (state r), Inl (Error ''TypeError''))
      | Step step \<Rightarrow>
          if isActionStep step then
            (case (if render step = Some PreservePrevious
                   then previousUiStep flow previousUiStepRef else None) of
               Some uiStep \<Rightarrow>
                 (case input uiStep (data (state r)) events of
                    (d, Inl e) \<Rightarrow> (previousUiStepRef, d, Inl e)
                  | (d, Inr i) \<Rightarrow> (previousUiStepRef, d, Inr (ViewComponent (view uiStep) i False)))
             | None \<Rightarrow>
                 (case render step of
                    Some (Fallback fallbackView) \<Rightarrow>
                      (case input step (data (state r)) events of
                         (d, Inl e) \<Rightarrow> (previousUiStepRef, d, Inl e)
                       | (d, Inr i) \<Rightarrow>
                           (previousUiStepRef, d,
                            Inr (FallbackView fallbackView i d events (currentStep (state r))
                                   (busy r))))
                  | _ \<Rightarrow> (previousUiStepRef, data (state r), Inr Null)))
          else
            (let ref = (if view step \<noteq> None then Some (currentStep (state r))
                        else previousUiStepRef)
             in case input step (data (state r)) events of
                  (d, Inl e) \<Rightarrow> (ref, d, Inl e)
                | (d, Inr i) \<Rightarrow> (ref, d, Inr (ViewComponent (view step) i True))))"

subsection \<open>Example inputs\<close>

definition exampleUiStep :: "(unit, unit) FlowStep" where
  "exampleUiStep =
     \<lparr>input = (\<lambda>d ev. (d, Inr ())), view = Some 0, action = None,
      onOutput = (\<lambda>d out ev. (d, Inr None)), render = None\<rparr>"

definition exampleOptions :: "string \<Rightarrow> unit DefineFlowOptions" where
  "exampleOptions s = \<lparr>optStart = s, optChannelTransitions = None\<rparr>"

definition exampleRunner :: "string \<Rightarrow> bool \<Rightarrow> unit Runner" where
  "exampleRunner s b =
     \<lparr>state = \<lparr>currentStep = s, data = ()\<rparr>, busy = b, tick = 0, isMounted = True,
      renderCount = 0, consoleErrors = []\<rparr>"




text \<open>A flow with a resolver for the channel key \<open>refresh\<close>.\<close>

definition refreshFlow :: "(unit, unit) FlowDefinition" where
  "refreshFlow =
     \<lparr>steps = [''ask'' \<mapsto> exampleUiStep, ''done'' \<mapsto> exampleUiStep], start = ''ask'',
      channelTransitions = Some [''refresh'' \<mapsto> (\<lambda>ctx. (ctxData ctx, Inr (Some ''done'')))]\<rparr>"

text \<open>A UI step that asks for the step \<open>done\<close>, and an action step with no view.\<close>

definition goStep :: "(unit, unit) FlowStep" where
  "goStep =
     \<lparr>input = (\<lambda>d ev. (d, Inr ())), view = Some 1, action = None,
      onOutput = (\<lambda>d out ev. (d, Inr (Some ''done''))), render = None\<rparr>"

definition exampleActionStep :: "(unit, unit) FlowStep" where
  "exampleActionStep =
     \<lparr>input = (\<lambda>d ev. (d, Inr ())), view = None,
      action = Some (\<lambda>i d ev. (d, Inr ())),
      onOutput = (\<lambda>d out ev. (d, Inr (Some ''done''))), render = None\<rparr>"

definition actionFlow :: "(unit, unit) FlowDefinition" where
  "actionFlow =
     \<lparr>steps = [''start'' \<mapsto> goStep, ''saving'' \<mapsto> exampleActionStep, ''done'' \<mapsto> exampleUiStep],
      start = ''start'', channelTransitions = None\<rparr>"

text \<open>
  An \<^verbatim>\<open>eventChannels\<close> prop written as an object literal: its identity and the
  channels under its keys.
\<close>

definition channelMap :: "nat \<Rightarrow> (string \<times> nat) list \<Rightarrow> EventChannels" where
  "channelMap i bindings =
     \<lparr>oid = i, prototype = ObjectPrototype, entries = map (\<lambda>(k, c). (k, Channel c)) bindings\<rparr>"

text \<open>
  The state of the subscriptions after the first run of the subscription effect, for a
  resolved map and no \<^verbatim>\<open>channelTransitions\<close>.
\<close>

definition subscribedTo :: "EventChannels \<Rightarrow> Subscriptions" where
  "subscribedTo m =
     subscriptionEffect None (Some m)
       \<lparr>deps = None, active = [], subscribeCalls = 0, unsubscribeCalls = 0, effectError = None\<rparr>"

text \<open>
  A resolved map that binds the key \<open>shared\<close> to channel 1, and a new object with the same
  binding.
\<close>

definition boundA :: EventChannels where
  "boundA = channelMap 20 [(''shared'', 1)]"

definition mapA' :: EventChannels where
  "mapA' = channelMap 12 [(''shared'', 1)]"

text \<open>
  The map \<^verbatim>\<open>{a: ch1}\<close>, the object the sticky strategy resolves from it first, and two
  later props: \<^verbatim>\<open>{a: ch1, toString: ch2}\<close> and \<^verbatim>\<open>{toString: ch2}\<close>.
\<close>

definition alphaMap :: EventChannels where
  "alphaMap = channelMap 10 [(''a'', 1)]"

definition alphaResolved :: EventChannels where
  "alphaResolved = channelMap 20 [(''a'', 1)]"

definition alphaToStringMap :: EventChannels where
  "alphaToStringMap = channelMap 11 [(''a'', 1), (''toString'', 2)]"

definition toStringMap :: EventChannels where
  "toStringMap = channelMap 12 [(''toString'', 2)]"

text \<open>A flow whose start is a name its step table only inherits.\<close>

definition constructorFlow :: "(unit, unit) FlowDefinition" where
  "constructorFlow =
     \<lparr>steps = [''ask'' \<mapsto> exampleUiStep], start = ''constructor'', channelTransitions = None\<rparr>"

text \<open>
  A channel with the listeners 1 and 2, and four behaviours of listener 1: it throws; it
  subscribes listener 3 and unsubscribes listener 2; it only subscribes; it only unsubscribes.
  Every other listener returns at once.
\<close>

definition twoListeners :: "nat FlowChannel" where
  "twoListeners = \<lparr>val = 0, listeners = [Some 1, Some 2]\<rparr>"




definition removingBodies :: "nat \<Rightarrow> effect list" where
  "removingBodies l = (if l = 1 then [Unsubscribe 2] else [])"

section \<open>Properties\<close>

subsection \<open>defineFlow\<close>

lemma defineFlow_throws_iff:
  "(\<exists>e. defineFlow stepsArg options = Inl e) \<longleftrightarrow>
     (optStart options = '''' \<or>
      (optStart options \<notin> dom stepsArg \<and> optStart options \<notin> set objectPrototypeNames))"
  by (auto simp: defineFlow_def readStep_def split: option.splits)

text \<open>
  Claim C4 does not hold of \<^verbatim>\<open>defineFlow\<close>. For the start \<^verbatim>\<open>constructor\<close>, which is
  not a key of the step table, the read \<^verbatim>\<open>steps[options.start]\<close> gives the function
  inherited from \<^verbatim>\<open>Object.prototype\<close>: nothing is thrown and a definition with that start
  is returned. The first render of a runner of this flow throws a \<^verbatim>\<open>TypeError\<close>.
\<close>

theorem defineFlow_accepts_inherited_start:
  "''constructor'' \<notin> dom [''ask'' \<mapsto> exampleUiStep] \<and>
   defineFlow [''ask'' \<mapsto> exampleUiStep] (exampleOptions ''constructor'') = Inr constructorFlow \<and>
   FlowRunner_render constructorFlow None None (exampleRunner (start constructorFlow) False) =
     (None, (), Inl (Error ''TypeError''))"
  by (simp add: defineFlow_def readStep_def objectPrototypeNames_def exampleOptions_def
      constructorFlow_def FlowRunner_render_def exampleRunner_def)

subsection \<open>Channels\<close>

lemma runListener_grows:
  "runListener body ls = (ls', x) \<Longrightarrow>
   length ls \<le> length ls' \<and> (\<forall>j < length ls. ls' ! j = ls ! j \<or> ls' ! j = None)"
proof (induction body ls arbitrary: ls' x rule: runListener.induct)
  case (1 ls)
  then show ?case by simp
next
  case (2 l body ls)
  from "2.IH" [OF "2.prems" [simplified]]
  show ?case by (auto simp: set_add_def nth_append split: if_splits)
next
  case (3 l body ls)
  from "3.IH" [OF "3.prems" [simplified]]
  have len: "length ls \<le> length ls'"
    and all: "\<forall>j < length ls. ls' ! j = set_delete l ls ! j \<or> ls' ! j = None"
    by (simp_all add: set_delete_def)
  have "ls' ! j = ls ! j \<or> ls' ! j = None" if "j < length ls" for j
  proof -
    from all that have "ls' ! j = set_delete l ls ! j \<or> ls' ! j = None" by simp
    moreover have "set_delete l ls ! j = ls ! j \<or> set_delete l ls ! j = None"
      using that by (simp add: set_delete_def)
    ultimately show ?thesis by auto
  qed
  with len show ?case by simp
next
  case (4 e body ls)
  then show ?case by simp
qed

lemma forEach_visits_all:
  assumes "forEach fuel bodies i ls called = Some (ls', called', None)"
    and "\<forall>j < i. j < length ls \<longrightarrow> (\<forall>l. ls ! j = Some l \<longrightarrow> l \<in> set called)"
  shows "\<forall>l. Some l \<in> set ls' \<longrightarrow> l \<in> set called'"
  using assms
proof (induction fuel arbitrary: i ls called)
  case 0
  then show ?case by simp
next
  case (Suc fuel)
  show ?case
  proof (cases "length ls \<le> i")
    case True
    with Suc.prems(1) have eq: "ls' = ls" "called' = called" by simp_all
    show ?thesis
      unfolding eq
    proof (intro allI impI)
      fix l assume "Some l \<in> set ls"
      then obtain j where j: "j < length ls" "ls ! j = Some l"
        by (auto simp: in_set_conv_nth)
      with True have "j < i" by simp
      with Suc.prems(2) j show "l \<in> set called" by blast
    qed
  next
    case False
    show ?thesis
    proof (cases "ls ! i")
      case None
      with False Suc.prems(1) have r: "forEach fuel bodies (Suc i) ls called = Some (ls', called', None)"
        by simp
      have "\<forall>j < Suc i. j < length ls \<longrightarrow> (\<forall>l. ls ! j = Some l \<longrightarrow> l \<in> set called)"
        using Suc.prems(2) None by (auto simp: less_Suc_eq)
      from Suc.IH [OF r this] show ?thesis .
    next
      case (Some l)
      obtain ls1 x where run: "runListener (bodies l) ls = (ls1, x)"
        by (cases "runListener (bodies l) ls")
      with False Some Suc.prems(1) have x: "x = None"
        by (cases x) simp_all
      with run False Some Suc.prems(1)
      have r: "forEach fuel bodies (Suc i) ls1 (called @ [l]) = Some (ls', called', None)"
        by simp
      from runListener_grows [OF run]
      have g: "length ls \<le> length ls1" "\<forall>j < length ls. ls1 ! j = ls ! j \<or> ls1 ! j = None"
        by simp_all
      have "\<forall>j < Suc i. j < length ls1 \<longrightarrow> (\<forall>l'. ls1 ! j = Some l' \<longrightarrow> l' \<in> set (called @ [l]))"
      proof (intro allI impI)
        fix j l' assume j: "j < Suc i" "j < length ls1" and v: "ls1 ! j = Some l'"
        from j False have jl: "j < length ls" by simp
        with g(2) v have old: "ls ! j = Some l'" by auto
        show "l' \<in> set (called @ [l])"
        proof (cases "j = i")
          case True
          with old Some show ?thesis by simp
        next
          case False
          with j have "j < i" by simp
          with Suc.prems(2) jl old show ?thesis by auto
        qed
      qed
      from Suc.IH [OF r this] show ?thesis .
    qed
  qed
qed



lemma forEach_quiet:
  assumes "\<forall>l. Some l \<in> set (drop i ls) \<longrightarrow> bodies l = []"
    and "length ls - i < fuel"
  shows "forEach fuel bodies i ls called = Some (ls, called @ registered (drop i ls), None)"
  using assms
proof (induction fuel arbitrary: i called)
  case 0
  then show ?case by simp
next
  case (Suc fuel)
  show ?case
  proof (cases "length ls \<le> i")
    case True
    then show ?thesis by simp
  next
    case False
    then have d: "drop i ls = ls ! i # drop (Suc i) ls"
      by (simp add: Cons_nth_drop_Suc)
    have q: "\<forall>l. Some l \<in> set (drop (Suc i) ls) \<longrightarrow> bodies l = []"
      using Suc.prems(1) d by simp
    have f: "length ls - Suc i < fuel"
      using Suc.prems(2) False by simp
    show ?thesis
    proof (cases "ls ! i")
      case None
      with False Suc.IH [OF q f, of called] show ?thesis
        by (simp add: d)
    next
      case (Some l)
      then have "bodies l = []"
        using Suc.prems(1) d by simp
      with False Some Suc.IH [OF q f, of "called @ [l]"] show ?thesis
        by (simp add: d)
    qed
  qed
qed



lemma emit_Some:
  "emit fuel bodies update ch = Some (ch', called, thrown) \<longleftrightarrow>
     (\<exists>ls. forEach fuel bodies 0 (listeners ch) [] = Some (ls, called, thrown) \<and>
        ch' = ch\<lparr>val := nextValue update (val ch), listeners := ls\<rparr>)"
  by (auto simp: emit_def Let_def split: option.splits)

text \<open>
  Claim C7, as stated, fails: with the listeners 1 and 2 subscribed and listener 1
  unsubscribing listener 2, \<^verbatim>\<open>emit\<close> commits the value and returns without an exception,
  having called listener 1 only; listener 2, registered when \<^verbatim>\<open>emit\<close> was called, is
  not notified.
\<close>

theorem emit_skips_registered_listener_counterexample:
  "Some 2 \<in> set (listeners twoListeners) \<and>
   emit 3 removingBodies (Function Suc) twoListeners =
     Some (\<lparr>val = 1, listeners = [Some 1, None]\<rparr>, [1], None)"
  by (simp add: twoListeners_def emit_def nextValue_def removingBodies_def set_delete_def
      eval_nat_numeral)

text \<open>
  Claim C7, amended. \<^verbatim>\<open>emit(update)\<close> first assigns \<^verbatim>\<open>update(prev)\<close> to the value
  when \<^verbatim>\<open>update\<close> is a function and \<^verbatim>\<open>update\<close> itself otherwise, then runs the
  notification pass over the live set of listeners. Whenever the call ends, the channel holds
  that value and \<^verbatim>\<open>get()\<close> returns it and leaves the channel as it is; when the call has
  returned, every listener still registered at that moment has been called in the pass. When
  the registered listeners return without touching the subscriptions (the listeners of a
  FlowRunner only start \<^verbatim>\<open>runChannelTransition\<close>), the call does return, on any fuel above
  the number of entries, having called each listener registered at the call once, in
  subscription order.
\<close>

theorem emit_commits_and_notifies:
  "(emit fuel bodies update ch = Some (ch', called, thrown) \<longrightarrow>
      val ch' = (case update of Function f \<Rightarrow> f (val ch) | Value v \<Rightarrow> v) \<and>
      get ch' = (val ch', ch') \<and>
      (thrown = None \<longrightarrow> (\<forall>l. Some l \<in> set (listeners ch') \<longrightarrow> l \<in> set called))) \<and>
   ((\<forall>l. Some l \<in> set (listeners ch) \<longrightarrow> bodies l = []) \<and> length (listeners ch) < fuel \<longrightarrow>
      emit fuel bodies update ch =
        Some (ch\<lparr>val := (case update of Function f \<Rightarrow> f (val ch) | Value v \<Rightarrow> v)\<rparr>,
              registered (listeners ch), None))"
proof (intro conjI impI)
  assume e: "emit fuel bodies update ch = Some (ch', called, thrown)"
  then obtain ls where ls: "forEach fuel bodies 0 (listeners ch) [] = Some (ls, called, thrown)"
    and ch': "ch' = ch\<lparr>val := nextValue update (val ch), listeners := ls\<rparr>"
    unfolding emit_Some by blast
  show "val ch' = (case update of Function f \<Rightarrow> f (val ch) | Value v \<Rightarrow> v)"
    by (simp add: ch' nextValue_def)
  show "get ch' = (val ch', ch')"
    by (simp add: get_def)
  assume "thrown = None"
  with ls have "forEach fuel bodies 0 (listeners ch) [] = Some (ls, called, None)"
    by simp
  from forEach_visits_all [OF this]
  show "\<forall>l. Some l \<in> set (listeners ch') \<longrightarrow> l \<in> set called"
    by (simp add: ch')
next
  assume q: "(\<forall>l. Some l \<in> set (listeners ch) \<longrightarrow> bodies l = []) \<and> length (listeners ch) < fuel"
  then have "forEach fuel bodies 0 (listeners ch) [] =
               Some (listeners ch, [] @ registered (drop 0 (listeners ch)), None)"
    by (intro forEach_quiet) simp_all
  then show "emit fuel bodies update ch =
        Some (ch\<lparr>val := (case update of Function f \<Rightarrow> f (val ch) | Value v \<Rightarrow> v)\<rparr>,
              registered (listeners ch), None)"
    by (simp add: emit_def nextValue_def)
qed

theorem emit_commits_and_notifies_witness:
  "length (listeners twoListeners) < 3 \<and>
   emit 3 (\<lambda>l. []) (Function Suc) twoListeners = Some (twoListeners\<lparr>val := 1\<rparr>, [1, 2], None) \<and>
   emit 3 (\<lambda>l. []) (Value 7) twoListeners = Some (twoListeners\<lparr>val := 7\<rparr>, [1, 2], None) \<and>
   get (twoListeners\<lparr>val := 7\<rparr>) = (7, twoListeners\<lparr>val := 7\<rparr>) \<and>
   1 \<in> set [1, 2 :: nat] \<and> 2 \<in> set [1, 2 :: nat]"
proof -
  have q: "(\<forall>l. Some l \<in> set (listeners twoListeners) \<longrightarrow> (\<lambda>l. []) l = ([] :: effect list)) \<and>
           length (listeners twoListeners) < 3"
    by (simp add: twoListeners_def)
  note t1 = emit_commits_and_notifies [of 3 "\<lambda>l. []" "Function Suc" twoListeners
      "twoListeners\<lparr>val := 1\<rparr>" "[1, 2]" None]
  note t2 = emit_commits_and_notifies [of 3 "\<lambda>l. []" "Value 7" twoListeners
      "twoListeners\<lparr>val := 7\<rparr>" "[1, 2]" None]
  have e1: "emit 3 (\<lambda>l. []) (Function Suc) twoListeners = Some (twoListeners\<lparr>val := 1\<rparr>, [1, 2], None)"
    using mp [OF conjunct2 [OF t1] q] by (simp add: twoListeners_def)
  have e2: "emit 3 (\<lambda>l. []) (Value 7) twoListeners = Some (twoListeners\<lparr>val := 7\<rparr>, [1, 2], None)"
    using mp [OF conjunct2 [OF t2] q] by (simp add: twoListeners_def)
  have g: "get (twoListeners\<lparr>val := 7\<rparr>) = (7, twoListeners\<lparr>val := 7\<rparr>) \<and>
           (\<forall>l. Some l \<in> set (listeners (twoListeners\<lparr>val := 7\<rparr>)) \<longrightarrow> l \<in> set [1, 2 :: nat])"
    using mp [OF conjunct1 [OF t2] e2] by simp
  have n: "1 \<in> set [1, 2 :: nat] \<and> 2 \<in> set [1, 2 :: nat]"
    using g by (simp add: twoListeners_def)
  show ?thesis
    using q e1 e2 g n by blast
qed







subsection \<open>Channel binding\<close>

lemma map_of_assign: "map_of (assign k v es) = (map_of es)(k \<mapsto> v)"
  by (induction es) (auto simp: fun_eq_iff)

lemma keys_assign: "set (map fst (assign k v es)) = insert k (set (map fst es))"
  by (simp add: map_of_assign flip: dom_map_of_conv_image_fst)

lemma distinct_assign: "distinct (map fst es) \<Longrightarrow> distinct (map fst (assign k v es))"
proof (induction es)
  case Nil
  then show ?case by simp
next
  case (Cons x es)
  obtain k' v' where x: "x = (k', v')" by (cases x)
  show ?case
  proof (cases "k = k'")
    case True
    with Cons.prems show ?thesis by (simp add: x)
  next
    case False
    have "k' \<notin> set (map fst (assign k v es))"
      using Cons.prems False unfolding keys_assign by (simp add: x)
    with Cons False show ?thesis by (simp add: x)
  qed
qed

lemma distinct_setProp: "distinct (keys obj) \<Longrightarrow> distinct (keys (setProp k v obj))"
  by (simp add: setProp_def keys_def distinct_assign)

lemma distinct_fold_setProp:
  "distinct (keys acc) \<Longrightarrow>
   distinct (keys (fold (\<lambda>(key, channel) candidate. setProp key (g key channel) candidate) xs acc))"
proof (induction xs arbitrary: acc)
  case Nil
  then show ?case by simp
next
  case (Cons x xs)
  obtain k0 c0 where x: "x = (k0, c0)" by (cases x)
  have "distinct (keys (setProp k0 (g k0 c0) acc))"
    by (rule distinct_setProp [OF Cons.prems])
  from Cons.IH [OF this] show ?case
    by (simp add: x)
qed

lemma distinct_stickyCandidate: "distinct (keys (stickyCandidate fresh prev inc))"
proof -
  have "distinct (keys \<lparr>oid = fresh, prototype = ObjectPrototype, entries = []\<rparr>)"
    by (simp add: keys_def)
  from distinct_fold_setProp [OF this,
      of "\<lambda>key channel. case binding prev key of Some v \<Rightarrow> v | None \<Rightarrow> channel" "entries inc"]
  show ?thesis
    by (simp add: stickyCandidate_def)
qed

lemma distinct_candidateFor:
  "distinct (keys inc) \<Longrightarrow> distinct (keys (candidateFor st fresh prev inc))"
  by (simp add: candidateFor_def distinct_stickyCandidate)

lemma own_property: "k \<in> set (keys m) \<Longrightarrow> getProp m k = map_of (entries m) k"
  by (auto simp: getProp_def keys_def map_of_eq_None_iff split: option.splits)

lemma dedup_step:
  assumes "distinct (keys p)" and "distinct (keys inc)"
    and "set (keys (candidateFor st fresh (Some p) inc)) = set (keys p)"
    and "\<forall>k \<in> set (keys p).
           binding (Some (candidateFor st fresh (Some p) inc)) k = binding (Some p) k"
  shows "getResolvedChannels st fresh (Some p) (Some inc) = (Some p, Some p)"
proof -
  let ?c = "candidateFor st fresh (Some p) inc"
  have "distinct (keys ?c)"
    by (rule distinct_candidateFor [OF assms(2)])
  then have "card (set (keys ?c)) = length (keys ?c)"
    by (rule distinct_card)
  moreover have "card (set (keys p)) = length (keys p)"
    using assms(1) by (rule distinct_card)
  ultimately have len: "length (keys p) = length (keys ?c)"
    using assms(3) by simp
  have "\<forall>k \<in> set (keys ?c). getProp p k = getProp ?c k"
    using assms(3,4) by (simp add: binding_def)
  with len have "sameChannels p ?c"
    by (simp add: sameChannels_def list_all_iff)
  then show ?thesis
    by (simp add: getResolvedChannels_def)
qed

text \<open>
  Claim C2 does not hold of \<^verbatim>\<open>getResolvedChannels\<close>. The runner has resolved
  \<^verbatim>\<open>{a: ch1}\<close> and now gets \<^verbatim>\<open>{a: ch1, toString: ch2}\<close>. The previous map has no
  channel for the key \<^verbatim>\<open>toString\<close>, yet \<^verbatim>\<open>prev?.[key]\<close> gives the function inherited
  from \<^verbatim>\<open>Object.prototype\<close>, and the resolved map binds the key to that function, not to
  the incoming channel 2. The subscription effect then throws a \<^verbatim>\<open>TypeError\<close> on it.
\<close>

theorem sticky_binds_inherited_function:
  "resolveAll sticky None [(20, Some alphaMap), (21, Some alphaToStringMap)] =
     [Some alphaResolved,
      Some \<lparr>oid = 21, prototype = ObjectPrototype,
            entries = [(''a'', Channel 1), (''toString'', ObjectPrototypeMember ''toString'')]\<rparr>] \<and>
   map_of (entries alphaResolved) ''toString'' = None \<and>
   binding (Some alphaToStringMap) ''toString'' = Some (Channel 2) \<and>
   effectError
     (subscriptionEffect None
        (snd (getResolvedChannels sticky 21 (Some alphaResolved) (Some alphaToStringMap)))
        (subscribedTo alphaResolved)) = Some (Error ''TypeError'')"
  by (simp add: getResolvedChannels_def candidateFor_def stickyCandidate_def sameChannels_def
      keys_def binding_def getProp_def inherited_def setProp_def objectPrototypeNames_def
      channelMap_def alphaMap_def alphaResolved_def alphaToStringMap_def
      subscribedTo_def subscriptionEffect_def Let_def)

text \<open>
  Claim C5. When a previously resolved map \<open>p\<close> exists and the candidate has the key set
  of \<open>p\<close> and binds every key to the channel \<open>p\<close> binds it to, the resolution returns
  \<open>p\<close> itself and leaves it in the ref; the subscription effect, whose last run saw
  \<open>p\<close> and the same \<^verbatim>\<open>flow.channelTransitions\<close>, then does not run: nothing is
  unsubscribed or subscribed.
\<close>

theorem dedup_returns_previous_map:
  assumes "distinct (keys p)" and "distinct (keys inc)"
    and "set (keys (candidateFor st fresh (Some p) inc)) = set (keys p)"
    and "\<forall>k \<in> set (keys p).
           binding (Some (candidateFor st fresh (Some p) inc)) k = binding (Some p) k"
  shows "getResolvedChannels st fresh (Some p) (Some inc) = (Some p, Some p) \<and>
         (deps s = Some (ct, Some (oid p)) \<longrightarrow>
            subscriptionEffect ct (snd (getResolvedChannels st fresh (Some p) (Some inc))) s = s)"
  using dedup_step [OF assms] by (simp add: subscriptionEffect_def)


theorem dedup_returns_previous_map_witness:
  "distinct (keys boundA) \<and> distinct (keys mapA') \<and>
   set (keys (candidateFor replace 21 (Some boundA) mapA')) = set (keys boundA) \<and>
   oid mapA' \<noteq> oid boundA \<and>
   getResolvedChannels replace 21 (Some boundA) (Some mapA') = (Some boundA, Some boundA) \<and>
   subscriptionEffect None (snd (getResolvedChannels replace 21 (Some boundA) (Some mapA')))
     (subscribedTo boundA) = subscribedTo boundA"
proof -
  have d: "distinct (keys boundA)" "distinct (keys mapA')"
    by (simp_all add: keys_def boundA_def mapA'_def channelMap_def)
  have ks: "set (keys (candidateFor replace 21 (Some boundA) mapA')) = set (keys boundA)"
    by (simp add: candidateFor_def keys_def boundA_def mapA'_def channelMap_def)
  have bs: "\<forall>k \<in> set (keys boundA).
              binding (Some (candidateFor replace 21 (Some boundA) mapA')) k = binding (Some boundA) k"
    by (simp add: candidateFor_def keys_def binding_def getProp_def boundA_def mapA'_def
        channelMap_def)
  have dp: "deps (subscribedTo boundA) = Some (None, Some (oid boundA))"
    by (simp add: subscribedTo_def subscriptionEffect_def Let_def boundA_def channelMap_def)
  have o: "oid mapA' \<noteq> oid boundA"
    by (simp add: boundA_def mapA'_def channelMap_def)
  note t = dedup_returns_previous_map [OF d ks bs, of "subscribedTo boundA" None]
  have 1: "getResolvedChannels replace 21 (Some boundA) (Some mapA') = (Some boundA, Some boundA)"
    by (rule conjunct1 [OF t])
  have 2: "subscriptionEffect None (snd (getResolvedChannels replace 21 (Some boundA) (Some mapA')))
             (subscribedTo boundA) = subscribedTo boundA"
    by (rule mp [OF conjunct2 [OF t] dp])
  show ?thesis
    using d ks o 1 2 by blast
qed

text \<open>
  Claim C10 does not hold of \<^verbatim>\<open>getResolvedChannels\<close>. The runner has resolved
  \<^verbatim>\<open>{a: ch1}\<close> and now gets \<^verbatim>\<open>{toString: ch2}\<close> under the sticky strategy. The
  candidate binds \<^verbatim>\<open>toString\<close> to the function the previous map inherits; the two maps
  have one key each and \<^verbatim>\<open>prev[k] === candidate[k]\<close> holds for the key of the candidate,
  so the previous map is returned: its key is \<^verbatim>\<open>a\<close>, not the incoming key, and the
  subscription effect does not run, so the runner stays subscribed to channel 1 under
  \<^verbatim>\<open>a\<close> and never subscribes to channel 2.
\<close>

theorem sticky_returns_previous_keys:
  "snd (getResolvedChannels sticky 20 None (Some alphaMap)) = Some alphaResolved \<and>
   getResolvedChannels sticky 22 (Some alphaResolved) (Some toStringMap) =
     (Some alphaResolved, Some alphaResolved) \<and>
   keys alphaResolved = [''a''] \<and> keys toStringMap = [''toString''] \<and>
   subscriptionEffect None
     (snd (getResolvedChannels sticky 22 (Some alphaResolved) (Some toStringMap)))
     (subscribedTo alphaResolved) = subscribedTo alphaResolved \<and>
   active (subscribedTo alphaResolved) = [(''a'', 1)]"
  by (simp add: getResolvedChannels_def candidateFor_def stickyCandidate_def sameChannels_def
      keys_def binding_def getProp_def inherited_def setProp_def objectPrototypeNames_def
      channelMap_def alphaMap_def alphaResolved_def toStringMap_def
      subscribedTo_def subscriptionEffect_def Let_def)

subsection \<open>Transitions\<close>






text \<open>
  A name the step table only inherits passes the test of \<^verbatim>\<open>applyTransition\<close>: the
  runner is moved to a step that does not exist.
\<close>

lemma applyTransition_inherited_name:
  "''constructor'' \<notin> dom (steps refreshFlow) \<and>
   currentStep (state (applyTransition refreshFlow (Some ''constructor'')
     (exampleRunner ''ask'' False))) = ''constructor''"
  by (simp add: refreshFlow_def exampleRunner_def applyTransition_def setState_def readStep_def
      objectPrototypeNames_def)




subsection \<open>Action steps\<close>



text \<open>
  Claim C6. An action step that declares no render policy (its \<^verbatim>\<open>render\<close> is absent)
  renders nothing: the component returns \<^verbatim>\<open>null\<close>, runs no callback and leaves
  \<^verbatim>\<open>previousUiStepRef\<close> as it is, while the action is running (\<^verbatim>\<open>busy\<close>) as well as
  before and after.
\<close>

theorem action_step_renders_nothing_by_default:
  assumes "steps flow (currentStep (state r)) = Some step"
    and "isActionStep step"
    and "render step = None"
  shows "FlowRunner_render flow events previousUiStepRef r =
           (previousUiStepRef, data (state r), Inr Null)"
  using assms by (simp add: FlowRunner_render_def readStep_def)

theorem action_step_renders_nothing_by_default_witness:
  "steps actionFlow (currentStep (state (exampleRunner ''saving'' True))) = Some exampleActionStep \<and>
   isActionStep exampleActionStep \<and> render exampleActionStep = None \<and>
   busy (exampleRunner ''saving'' True) \<and>
   FlowRunner_render actionFlow None (Some ''start'') (exampleRunner ''saving'' True) =
     (Some ''start'', (), Inr Null)"
proof -
  have s: "steps actionFlow (currentStep (state (exampleRunner ''saving'' True))) =
             Some exampleActionStep"
    by (simp add: actionFlow_def exampleRunner_def)
  have a: "isActionStep exampleActionStep"
    by (simp add: isActionStep_def exampleActionStep_def)
  have p: "render exampleActionStep = None"
    by (simp add: exampleActionStep_def)
  have b: "busy (exampleRunner ''saving'' True)"
    by (simp add: exampleRunner_def)
  show ?thesis
    using s a p b
      action_step_renders_nothing_by_default [OF s a p, of None "Some ''start''"]
    by simp
qed

end
